theory Spec2Isabelle
  imports Main
begin

section \<open>Strings and language codes (mentra-sdk/utils.py)\<close>

text \<open>
  A Python \<open>str\<close> is a sequence of Unicode code points; it is modelled as a list of
  code points, so that \<open>length\<close> is Python's \<open>len\<close>.  A literal is written
  \<open>py ''...''\<close>.
\<close>

type_synonym pystr = "nat list"

definition py :: "string \<Rightarrow> pystr" where
  "py s = map of_char s"

definition hyphen :: nat where
  "hyphen = 45"

text \<open>
  \<open>str.split(sep)\<close> for a one-character separator: the parts between the
  occurrences of the separator, at least one part, empty parts kept.  The split of the
  rest is never the empty list, so the first branch of the inner \<open>case\<close> is not
  taken.
\<close>

fun str_split :: "nat \<Rightarrow> pystr \<Rightarrow> pystr list" where
  "str_split sep [] = [[]]"
| "str_split sep (c # cs) =
     (if c = sep then [] # str_split sep cs
      else (case str_split sep cs of
              [] \<Rightarrow> [[c]]
            | p # ps \<Rightarrow> (c # p) # ps))"

text \<open>
  \<open>str.isalpha()\<close>: at least one character and every character alphabetic.  Which
  code points are alphabetic is a table of the Python runtime (the Unicode database); it
  is the parameter \<open>alpha\<close> of everything below.
\<close>

definition str_isalpha :: "(nat \<Rightarrow> bool) \<Rightarrow> pystr \<Rightarrow> bool" where
  "str_isalpha alpha s = (s \<noteq> [] \<and> list_all alpha s)"

text \<open>The ASCII letters, one instance of the table.\<close>

definition ascii_alpha :: "nat \<Rightarrow> bool" where
  "ascii_alpha c = ((65 \<le> c \<and> c \<le> 90) \<or> (97 \<le> c \<and> c \<le> 122))"

datatype error =
    ValueError pystr
  | RuntimeError pystr
  | AttributeError pystr
  | UserError nat

definition is_valid_language_code :: "(nat \<Rightarrow> bool) \<Rightarrow> pystr \<Rightarrow> bool" where
  "is_valid_language_code alpha code =
     (if code = [] then False
      else
        (let parts = str_split hyphen code in
         if length parts = 1 then
           length (parts ! 0) = 2 \<and> str_isalpha alpha (parts ! 0)
         else if length parts = 2 then
           (length (parts ! 0) = 2 \<and> str_isalpha alpha (parts ! 0) \<and>
            length (parts ! 1) = 2 \<and> str_isalpha alpha (parts ! 1))
         else False))"

definition create_transcription_stream :: "(nat \<Rightarrow> bool) \<Rightarrow> pystr \<Rightarrow> error + pystr" where
  "create_transcription_stream alpha language =
     (if \<not> is_valid_language_code alpha language then
        Inl (ValueError (py ''Invalid language code: '' @ language))
      else Inr (py ''transcription:'' @ language))"

definition create_translation_stream ::
  "(nat \<Rightarrow> bool) \<Rightarrow> pystr \<Rightarrow> pystr \<Rightarrow> error + pystr" where
  "create_translation_stream alpha source_language target_language =
     (if \<not> is_valid_language_code alpha source_language then
        Inl (ValueError (py ''Invalid source language code: '' @ source_language))
      else if \<not> is_valid_language_code alpha target_language then
        Inl (ValueError (py ''Invalid target language code: '' @ target_language))
      else Inr (py ''translation:'' @ source_language @ py '':'' @ target_language))"


section \<open>Handlers, coroutines and the event manager (mentra-sdk/events.py)\<close>

text \<open>
  Event data is \<open>Any\<close> in the source.  The model distinguishes a plain value from a
  \<open>CustomMessage\<close>, the one payload whose fields (\<open>action\<close>, \<open>payload\<close>) the
  event manager reads.
\<close>

datatype 'a data =
    Value 'a
  | CustomMessage pystr "'a data"

text \<open>
  A handler is a function object.  \<open>Def i c b\<close> is a function of the application:
  \<open>i\<close> is its identity, \<open>c\<close> says whether it was written \<open>async def\<close>
  (\<open>inspect.iscoroutinefunction\<close>), and \<open>b\<close> is its body, which returns \<open>None\<close>
  or raises.  \<open>MessageHandler k action handler\<close> is the closure \<open>message_handler\<close>
  that \<open>on_custom_message\<close> builds; \<open>k\<close> is the identity of the closure.
\<close>

datatype 'a func =
    Def nat bool "'a data \<Rightarrow> error option"
  | MessageHandler nat pystr "'a func"


definition raises_error :: "nat \<Rightarrow> 'a data \<Rightarrow> error option" where
  "raises_error n d = Some (UserError n)"

fun iscoroutinefunction :: "'a func \<Rightarrow> bool" where
  "iscoroutinefunction (Def i c b) = c"
| "iscoroutinefunction (MessageHandler k a h) = False"

text \<open>
  \<open>list.remove\<close> compares with \<open>==\<close>, which on function objects is identity.
\<close>

fun same_object :: "'a func \<Rightarrow> 'a func \<Rightarrow> bool" where
  "same_object (Def i c b) (Def j c' b') = (i = j)"
| "same_object (MessageHandler k a h) (MessageHandler k' a' h') = (k = k')"
| "same_object _ _ = False"

text \<open>
  What a call returns: \<open>None\<close>, or a coroutine object, which holds the body of an
  \<open>async def\<close> function and its argument and has not run yet.
\<close>

datatype 'a ret =
    RNone
  | RCoroutine nat "'a data \<Rightarrow> error option" "'a data"

text \<open>
  Executions of application function bodies are recorded as pairs of the function's
  identity and the argument it received.
\<close>

type_synonym 'a trace = "(nat \<times> 'a data) list"

definition run_body :: "nat \<Rightarrow> ('a data \<Rightarrow> error option) \<Rightarrow> 'a data \<Rightarrow> (error + 'a ret) \<times> 'a trace" where
  "run_body i b d = ((case b d of None \<Rightarrow> Inr RNone | Some e \<Rightarrow> Inl e), [(i, d)])"

text \<open>
  Calling a function object.  Calling an \<open>async def\<close> function only creates the
  coroutine object.  \<open>message_handler\<close> returns \<open>handler(message.payload)\<close> in both
  branches of its test; reading \<open>message.action\<close> of a value that has no such
  attribute raises.
\<close>

fun call :: "'a func \<Rightarrow> 'a data \<Rightarrow> (error + 'a ret) \<times> 'a trace" where
  "call (Def i c b) d =
     (if c then (Inr (RCoroutine i b d), []) else run_body i b d)"
| "call (MessageHandler k a h) d =
     (case d of
        Value v \<Rightarrow> (Inl (AttributeError (py ''action'')), [])
      | CustomMessage a' p \<Rightarrow>
          if a' = a then
            (if iscoroutinefunction h then call h p else call h p)
          else (Inr RNone, []))"

text \<open>
  The awaitables \<open>emit\<close> collects: a coroutine object, or the future of a call running
  in the executor's thread pool.
\<close>

datatype 'a awaitable =
    Coroutine nat "'a data \<Rightarrow> error option" "'a data"
  | ExecutorFuture "'a func" "'a data"

text \<open>
  Awaiting one of them: a coroutine runs its body; an executor future delivers what the
  call in the worker thread returned or raised (the returned value is not awaited).
\<close>

fun await_one :: "'a awaitable \<Rightarrow> (error + 'a ret) \<times> 'a trace" where
  "await_one (Coroutine i b d) = run_body i b d"
| "await_one (ExecutorFuture f d) = call f d"

fun first_error :: "(error + 'r) list \<Rightarrow> error option" where
  "first_error [] = None"
| "first_error (Inl e # rs) = Some e"
| "first_error (Inr v # rs) = first_error rs"

text \<open>
  \<open>asyncio.gather(*tasks, return_exceptions=...)\<close>: every awaitable runs to its end;
  with \<open>return_exceptions\<close> the exceptions are results, without it the first one is
  raised to the caller.  The model runs the awaitables one after the other; the order in
  which the event loop and the thread pool interleave them is not modelled.
\<close>

definition gather :: "bool \<Rightarrow> 'a awaitable list \<Rightarrow> (error + (error + 'a ret) list) \<times> 'a trace" where
  "gather return_exceptions tasks =
     (let outs = map await_one tasks;
          results = map fst outs;
          tr = concat (map snd outs)
      in if return_exceptions then (Inr results, tr)
         else (case first_error results of
                 None \<Rightarrow> (Inr results, tr)
               | Some e \<Rightarrow> (Inl e, tr)))"

text \<open>
  The state of an \<open>EventManager\<close>.  \<open>handlers\<close> is the \<open>defaultdict(list)\<close>;
  a cleanup function is the closure over \<open>event_type\<close> and \<open>handler\<close>;
  \<open>subscription_tasks\<close> lists the stream types for which \<open>_ensure_subscription\<close> was
  scheduled with \<open>asyncio.create_task\<close>;
  \<open>closures\<close> counts the \<open>message_handler\<close> closures created so far and gives each
  its identity.
\<close>

datatype 'a cleanup_token = Cleanup pystr "'a func"

record 'a event_manager =
  handlers :: "pystr \<rightharpoonup> 'a func list"
  last_transcription_cleanup :: "'a cleanup_token option"
  last_translation_cleanup :: "'a cleanup_token option"
  subscription_tasks :: "pystr list"
  closures :: nat

definition init :: "'a event_manager" where
  "init = \<lparr> handlers = Map.empty, last_transcription_cleanup = None,
            last_translation_cleanup = None, subscription_tasks = [], closures = 0 \<rparr>"

text \<open>
  \<open>self._handlers[event_type]\<close> on the \<open>defaultdict\<close>: a missing key is inserted
  with an empty list before the value is returned.
\<close>

definition getitem :: "'a event_manager \<Rightarrow> pystr \<Rightarrow> 'a func list \<times> 'a event_manager" where
  "getitem m event_type =
     (case handlers m event_type of
        Some hs \<Rightarrow> (hs, m)
      | None \<Rightarrow> ([], m\<lparr>handlers := (handlers m)(event_type \<mapsto> [])\<rparr>))"

definition setitem :: "'a event_manager \<Rightarrow> pystr \<Rightarrow> 'a func list \<Rightarrow> 'a event_manager" where
  "setitem m event_type hs = m\<lparr>handlers := (handlers m)(event_type \<mapsto> hs)\<rparr>"

definition delitem :: "'a event_manager \<Rightarrow> pystr \<Rightarrow> 'a event_manager" where
  "delitem m event_type = m\<lparr>handlers := (handlers m)(event_type := None)\<rparr>"

text \<open>\<open>list.remove(x)\<close>: removes the first equal element, \<open>ValueError\<close> if there is none.\<close>

fun list_remove :: "'a func \<Rightarrow> 'a func list \<Rightarrow> error + 'a func list" where
  "list_remove x [] = Inl (ValueError (py ''list.remove(x): x not in list''))"
| "list_remove x (y # ys) =
     (if same_object y x then Inr ys
      else (case list_remove x ys of
              Inl e \<Rightarrow> Inl e
            | Inr ys' \<Rightarrow> Inr (y # ys')))"

text \<open>
  \<open>asyncio.create_task(self._ensure_subscription(event_type))\<close>: with an event loop
  running in the calling thread the task is scheduled; without one \<open>create_task\<close>
  raises \<open>RuntimeError\<close>.  Whether a loop is running where a registration method is
  called (it is not, for one, in the worker thread in which \<open>emit\<close> runs a
  synchronous handler) is the argument \<open>loop\<close> of every registration method.
\<close>

definition create_task :: "bool \<Rightarrow> 'a event_manager \<Rightarrow> pystr \<Rightarrow> 'a event_manager \<times> error option" where
  "create_task loop m event_type =
     (if loop then (m\<lparr>subscription_tasks := subscription_tasks m @ [event_type]\<rparr>, None)
      else (m, Some (RuntimeError (py ''no running event loop''))))"

text \<open>
  \<open>_add_handler\<close>.  The handler is appended first; when \<open>create_task\<close> raises, the
  exception leaves the method, the handler stays in the list and no cleanup function is
  returned.
\<close>

definition add_handler ::
  "bool \<Rightarrow> 'a event_manager \<Rightarrow> pystr \<Rightarrow> 'a func \<Rightarrow> 'a event_manager \<times> (error + 'a cleanup_token)" where
  "add_handler loop m event_type handler =
     (let (hs, m1) = getitem m event_type;
          m2 = setitem m1 event_type (hs @ [handler]);
          (hs2, m3) = getitem m2 event_type
      in if length hs2 = 1 then
           (case create_task loop m3 event_type of
              (m4, Some e) \<Rightarrow> (m4, Inl e)
            | (m4, None) \<Rightarrow> (m4, Inr (Cleanup event_type handler)))
         else (m3, Inr (Cleanup event_type handler)))"

text \<open>
  Invoking the closure \<open>cleanup\<close>.  The lookup \<open>self._handlers[event_type]\<close> comes
  first and is not undone when \<open>remove\<close> raises the \<open>ValueError\<close> that the
  \<open>except\<close> clause swallows.
\<close>

fun cleanup :: "'a cleanup_token \<Rightarrow> 'a event_manager \<Rightarrow> 'a event_manager" where
  "cleanup (Cleanup event_type handler) m =
     (let (hs, m1) = getitem m event_type in
      case list_remove handler hs of
        Inl e \<Rightarrow> m1
      | Inr hs' \<Rightarrow>
          (let m2 = setitem m1 event_type hs';
               (hs2, m3) = getitem m2 event_type
           in if length hs2 = 0 then delitem m3 event_type else m3))"

definition on ::
  "bool \<Rightarrow> 'a event_manager \<Rightarrow> pystr \<Rightarrow> 'a func \<Rightarrow> 'a event_manager \<times> (error + 'a cleanup_token)" where
  "on loop m event_type handler = add_handler loop m event_type handler"

text \<open>
  \<open>emit\<close>.  The result records whether \<open>emit\<close> raised to its caller, what it
  logged, and which application function bodies ran with which argument.
\<close>

record 'a emitted =
  raised :: "error option"
  logged :: "error list"
  ran :: "'a trace"

text \<open>
  The \<open>for\<close> loop of \<open>emit\<close>: a coroutine function is called, which creates the
  coroutine that is appended to \<open>tasks\<close>; any other handler is handed to the
  executor.  An exception of the call is logged by the \<open>except\<close> branch of the loop
  body.  The result is \<open>tasks\<close> and what was logged.
\<close>

fun schedule :: "'a func list \<Rightarrow> 'a data \<Rightarrow> 'a awaitable list \<times> error list" where
  "schedule [] d = ([], [])"
| "schedule (handler # hs) d =
     (let (tasks, errors) = schedule hs d in
      if iscoroutinefunction handler then
        (case fst (call handler d) of
           Inl e \<Rightarrow> (tasks, e # errors)
         | Inr RNone \<Rightarrow> (tasks, errors)
         | Inr (RCoroutine i b x) \<Rightarrow> (Coroutine i b x # tasks, errors))
      else (ExecutorFuture handler d # tasks, errors))"

definition emit :: "'a event_manager \<Rightarrow> pystr \<Rightarrow> 'a data \<Rightarrow> 'a emitted" where
  "emit m event_type d =
     (case handlers m event_type of
        None \<Rightarrow> \<lparr> raised = None, logged = [], ran = [] \<rparr>
      | Some hs \<Rightarrow>
          (let (tasks, errors) = schedule hs d in
           if tasks = [] then \<lparr> raised = None, logged = errors, ran = [] \<rparr>
           else (case gather True tasks of
                   (Inl e, tr) \<Rightarrow> \<lparr> raised = None, logged = errors @ [e], ran = tr \<rparr>
                 | (Inr results, tr) \<Rightarrow> \<lparr> raised = None, logged = errors, ran = tr \<rparr>)))"

text \<open>The handlers registered for an event type; none when the entry is absent.\<close>

definition registered :: "'a event_manager \<Rightarrow> pystr \<Rightarrow> 'a func list" where
  "registered m event_type = (case handlers m event_type of None \<Rightarrow> [] | Some hs \<Rightarrow> hs)"

text \<open>
  The single-slot registrations.  The state is returned also when the call raises, so
  that what was changed before the exception stays visible.
\<close>

definition on_transcription_for_language ::
  "(nat \<Rightarrow> bool) \<Rightarrow> bool \<Rightarrow> 'a event_manager \<Rightarrow> pystr \<Rightarrow> 'a func \<Rightarrow>
     'a event_manager \<times> (error + 'a cleanup_token)" where
  "on_transcription_for_language alpha loop m language handler =
     (if \<not> is_valid_language_code alpha language then
        (m, Inl (ValueError (py ''Invalid language code: '' @ language)))
      else
        (let m1 = (case last_transcription_cleanup m of
                     None \<Rightarrow> m
                   | Some c \<Rightarrow> cleanup c m)
         in case create_transcription_stream alpha language of
              Inl e \<Rightarrow> (m1, Inl e)
            | Inr stream_type \<Rightarrow>
                (case add_handler loop m1 stream_type handler of
                   (m2, Inl e) \<Rightarrow> (m2, Inl e)
                 | (m2, Inr c) \<Rightarrow> (m2\<lparr>last_transcription_cleanup := Some c\<rparr>, Inr c))))"

definition on_transcription ::
  "(nat \<Rightarrow> bool) \<Rightarrow> bool \<Rightarrow> 'a event_manager \<Rightarrow> 'a func \<Rightarrow>
     'a event_manager \<times> (error + 'a cleanup_token)" where
  "on_transcription alpha loop m handler =
     on_transcription_for_language alpha loop m (py ''en-US'') handler"

definition on_translation_for_language ::
  "(nat \<Rightarrow> bool) \<Rightarrow> bool \<Rightarrow> 'a event_manager \<Rightarrow> pystr \<Rightarrow> pystr \<Rightarrow> 'a func \<Rightarrow>
     'a event_manager \<times> (error + 'a cleanup_token)" where
  "on_translation_for_language alpha loop m source_language target_language handler =
     (if \<not> is_valid_language_code alpha source_language then
        (m, Inl (ValueError (py ''Invalid source language code: '' @ source_language)))
      else if \<not> is_valid_language_code alpha target_language then
        (m, Inl (ValueError (py ''Invalid target language code: '' @ target_language)))
      else
        (let m1 = (case last_translation_cleanup m of
                     None \<Rightarrow> m
                   | Some c \<Rightarrow> cleanup c m)
         in case create_translation_stream alpha source_language target_language of
              Inl e \<Rightarrow> (m1, Inl e)
            | Inr stream_type \<Rightarrow>
                (case add_handler loop m1 stream_type handler of
                   (m2, Inl e) \<Rightarrow> (m2, Inl e)
                 | (m2, Inr c) \<Rightarrow> (m2\<lparr>last_translation_cleanup := Some c\<rparr>, Inr c))))"

definition on_custom_message ::
  "bool \<Rightarrow> 'a event_manager \<Rightarrow> pystr \<Rightarrow> 'a func \<Rightarrow> 'a event_manager \<times> (error + 'a cleanup_token)" where
  "on_custom_message loop m action handler =
     (let message_handler = MessageHandler (closures m) action handler;
          m1 = m\<lparr>closures := Suc (closures m)\<rparr>
      in add_handler loop m1 (py ''custom_message'') message_handler)"


section \<open>The resource tracker (mentra-sdk/utils.py)\<close>

text \<open>
  What an application callback does when it runs, as far as the tracker is concerned:
  it may invoke the cancel function of an interval, dispose the tracker, create a
  timeout or an interval, or raise.  \<open>UserFn i script\<close> is an application function
  with identity \<open>i\<close>.
\<close>

datatype action =
    InvokeCancel nat
  | CallDispose
  | CallSetTimeout user_fn int
  | CallSetInterval user_fn int
  | RaiseError nat
and user_fn = UserFn nat "action list"

text \<open>
  The callback of a timer: an application function, or the closure
  \<open>interval_callback\<close> of a \<open>set_interval\<close> call, which captures the cell
  \<open>cancelled\<close> (by its index), \<open>callback\<close> and \<open>interval\<close>.
\<close>

datatype callback =
    UserCallback user_fn
  | IntervalCallback nat user_fn int

text \<open>
  The cleanup functions a tracker holds: an application function that returns or raises,
  the closure \<open>cleanup\<close> of \<open>track_timer\<close>, or the closure \<open>cancel\<close> of
  \<open>set_interval\<close>.
\<close>

datatype cleanup_fn =
    UserCleanup nat "error option"
  | TimerCleanup nat
  | IntervalCancel nat

datatype async_cleanup_fn = AsyncCleanup nat "error option"

text \<open>How a task answers a cancellation request when it is awaited.\<close>

datatype reaction = Cancels | Completes | Fails nat | Never

datatype event =
    TimerCancelled nat
  | TaskCancelRequested nat
  | TaskAwaited nat
  | CleanupRan cleanup_fn
  | AsyncCleanupRan async_cleanup_fn
  | Printed error
  | LoopError error
  | CallbackRan nat
  | IntervalFired nat
  | CancelInvoked nat

text \<open>
  The fields of \<open>ResourceTracker\<close>, followed by the part of its surroundings that its
  methods read and write: the timers of the event loop that have not fired yet, the
  \<open>cancelled()\<close> flag of each timer handle, the \<open>cancelled\<close> cell of each
  \<open>set_interval\<close> call, the \<open>done()\<close> flag of each task, and a chronological log
  of what happened.  Timers, tasks and cells are named by numbers.  \<open>_tasks\<close> is
  a \<open>WeakSet\<close>; the model keeps every task, none is collected.  An application
  cleanup function returns or raises and does not call back into the tracker.
\<close>

record resource_tracker =
  cleanup_functions :: "cleanup_fn list"
  async_cleanup_functions :: "async_cleanup_fn list"
  timers :: "nat list"
  tasks :: "nat list"
  disposed :: bool
  scheduled :: "(nat \<times> callback) list"
  timer_cancelled :: "nat \<Rightarrow> bool"
  next_timer :: nat
  interval_cancelled :: "nat \<Rightarrow> bool"
  next_interval :: nat
  task_done :: "nat \<Rightarrow> bool"
  task_reaction :: "nat \<Rightarrow> reaction"
  log :: "event list"

definition new_tracker :: "(nat \<Rightarrow> reaction) \<Rightarrow> resource_tracker" where
  "new_tracker reactions =
     \<lparr> cleanup_functions = [], async_cleanup_functions = [], timers = [], tasks = [],
       disposed = False, scheduled = [], timer_cancelled = (\<lambda>t. False), next_timer = 0,
       interval_cancelled = (\<lambda>k. False), next_interval = 0,
       task_done = (\<lambda>t. False), task_reaction = reactions, log = [] \<rparr>"

definition record_event :: "event \<Rightarrow> resource_tracker \<Rightarrow> resource_tracker" where
  "record_event e s = s\<lparr>log := log s @ [e]\<rparr>"

definition track :: "resource_tracker \<Rightarrow> cleanup_fn \<Rightarrow> resource_tracker \<times> (error + cleanup_fn)" where
  "track s cleanup_f =
     (if disposed s then (s, Inl (RuntimeError (py ''ResourceTracker has been disposed'')))
      else (s\<lparr>cleanup_functions := cleanup_functions s @ [cleanup_f]\<rparr>, Inr cleanup_f))"

definition track_async ::
  "resource_tracker \<Rightarrow> async_cleanup_fn \<Rightarrow> resource_tracker \<times> (error + async_cleanup_fn)" where
  "track_async s cleanup_f =
     (if disposed s then (s, Inl (RuntimeError (py ''ResourceTracker has been disposed'')))
      else (s\<lparr>async_cleanup_functions := async_cleanup_functions s @ [cleanup_f]\<rparr>,
            Inr cleanup_f))"

definition track_timer :: "resource_tracker \<Rightarrow> nat \<Rightarrow> resource_tracker \<times> (error + cleanup_fn)" where
  "track_timer s timer = track (s\<lparr>timers := timers s @ [timer]\<rparr>) (TimerCleanup timer)"

text \<open>\<open>self._tasks\<close> is a set: adding a task that is already in it changes nothing.\<close>

definition track_task :: "resource_tracker \<Rightarrow> nat \<Rightarrow> resource_tracker \<times> (error + nat)" where
  "track_task s task =
     (s\<lparr>tasks := (if task \<in> set (tasks s) then tasks s else tasks s @ [task])\<rparr>, Inr task)"

text \<open>
  \<open>loop.call_later\<close>: a new timer handle, not cancelled, waiting to fire.  When it
  fires is decided by the run (see \<open>fire\<close>), not computed from the delay.
\<close>

definition call_later :: "resource_tracker \<Rightarrow> int \<Rightarrow> callback \<Rightarrow> resource_tracker \<times> nat" where
  "call_later s delay cb =
     (let timer = next_timer s
      in (s\<lparr>scheduled := scheduled s @ [(timer, cb)],
            timer_cancelled := (timer_cancelled s)(timer := False),
            next_timer := Suc timer\<rparr>, timer))"

definition set_timeout ::
  "resource_tracker \<Rightarrow> callback \<Rightarrow> int \<Rightarrow> resource_tracker \<times> (error + nat)" where
  "set_timeout s cb delay =
     (let (s1, timer) = call_later s delay cb
      in case track_timer s1 timer of
           (s2, Inl e) \<Rightarrow> (s2, Inl e)
         | (s2, Inr c) \<Rightarrow> (s2, Inr timer))"

definition set_interval ::
  "resource_tracker \<Rightarrow> user_fn \<Rightarrow> int \<Rightarrow> resource_tracker \<times> (error + cleanup_fn)" where
  "set_interval s cb interval =
     (let k = next_interval s;
          s1 = s\<lparr>interval_cancelled := (interval_cancelled s)(k := False),
                 next_interval := Suc k\<rparr>
      in case set_timeout s1 (IntervalCallback k cb interval) interval of
           (s2, Inl e) \<Rightarrow> (s2, Inl e)
         | (s2, Inr timer) \<Rightarrow> track s2 (IntervalCancel k))"

text \<open>\<open>if not timer.cancelled(): timer.cancel()\<close>\<close>

definition cancel_timer :: "nat \<Rightarrow> resource_tracker \<Rightarrow> resource_tracker" where
  "cancel_timer timer s =
     (if \<not> timer_cancelled s timer
      then record_event (TimerCancelled timer) (s\<lparr>timer_cancelled := (timer_cancelled s)(timer := True)\<rparr>)
      else s)"

text \<open>\<open>if not task.done(): task.cancel()\<close>\<close>

definition cancel_task :: "nat \<Rightarrow> resource_tracker \<Rightarrow> resource_tracker" where
  "cancel_task task s =
     (if \<not> task_done s task then record_event (TaskCancelRequested task) s else s)"

text \<open>Invoking a cleanup function.\<close>

fun invoke :: "cleanup_fn \<Rightarrow> resource_tracker \<Rightarrow> resource_tracker \<times> error option" where
  "invoke (UserCleanup i outcome) s = (s, outcome)"
| "invoke (TimerCleanup timer) s = (cancel_timer timer s, None)"
| "invoke (IntervalCancel k) s =
     (record_event (CancelInvoked k) (s\<lparr>interval_cancelled := (interval_cancelled s)(k := True)\<rparr>),
      None)"

text \<open>
  The body of the loop over \<open>self._cleanup_functions\<close>: the call in its own
  \<open>try\<close>, an exception printed and dropped.
\<close>

definition try_cleanup :: "cleanup_fn \<Rightarrow> resource_tracker \<Rightarrow> resource_tracker" where
  "try_cleanup c s =
     (case invoke c (record_event (CleanupRan c) s) of
        (s1, None) \<Rightarrow> s1
      | (s1, Some e) \<Rightarrow> record_event (Printed e) s1)"

definition run_cleanups :: "cleanup_fn list \<Rightarrow> resource_tracker \<Rightarrow> resource_tracker" where
  "run_cleanups cs s = fold try_cleanup cs s"

text \<open>The same for \<open>self._async_cleanup_functions\<close>, the result awaited.\<close>

fun try_async_cleanup :: "async_cleanup_fn \<Rightarrow> resource_tracker \<Rightarrow> resource_tracker" where
  "try_async_cleanup (AsyncCleanup i outcome) s =
     (case outcome of
        None \<Rightarrow> record_event (AsyncCleanupRan (AsyncCleanup i outcome)) s
      | Some e \<Rightarrow>
          record_event (Printed e) (record_event (AsyncCleanupRan (AsyncCleanup i outcome)) s))"

definition run_async_cleanups :: "async_cleanup_fn list \<Rightarrow> resource_tracker \<Rightarrow> resource_tracker" where
  "run_async_cleanups cs s = fold try_async_cleanup cs s"

definition clear_lists :: "resource_tracker \<Rightarrow> resource_tracker" where
  "clear_lists s = s\<lparr>cleanup_functions := [], async_cleanup_functions := [], timers := []\<rparr>"

definition dispose :: "resource_tracker \<Rightarrow> resource_tracker" where
  "dispose s =
     (if disposed s then s
      else
        (let s1 = s\<lparr>disposed := True\<rparr>;
             s2 = fold cancel_timer (timers s1) s1;
             s3 = fold cancel_task (tasks s2) s2;
             s4 = run_cleanups (cleanup_functions s3) s3
         in clear_lists s4))"

text \<open>
  The task loop of \<open>dispose_async\<close>: a task that is not done is cancelled and awaited.
  A task that never ends keeps \<open>dispose_async\<close> from returning: the result is
  \<open>None\<close>.
\<close>

fun cancel_and_await :: "nat list \<Rightarrow> resource_tracker \<Rightarrow> resource_tracker option" where
  "cancel_and_await [] s = Some s"
| "cancel_and_await (task # ts) s =
     (if \<not> task_done s task then
        (let s1 = record_event (TaskAwaited task) (record_event (TaskCancelRequested task) s)
         in case task_reaction s1 task of
              Cancels \<Rightarrow> cancel_and_await ts (s1\<lparr>task_done := (task_done s1)(task := True)\<rparr>)
            | Completes \<Rightarrow> cancel_and_await ts (s1\<lparr>task_done := (task_done s1)(task := True)\<rparr>)
            | Fails n \<Rightarrow>
                cancel_and_await ts
                  (record_event (Printed (UserError n)) (s1\<lparr>task_done := (task_done s1)(task := True)\<rparr>))
            | Never \<Rightarrow> None)
      else cancel_and_await ts s)"

definition dispose_async :: "resource_tracker \<Rightarrow> resource_tracker option" where
  "dispose_async s =
     (if disposed s then Some s
      else
        (let s1 = s\<lparr>disposed := True\<rparr>;
             s2 = fold cancel_timer (timers s1) s1
         in case cancel_and_await (tasks s2) s2 of
              None \<Rightarrow> None
            | Some s3 \<Rightarrow>
                (let s4 = run_cleanups (cleanup_functions s3) s3;
                     s5 = run_async_cleanups (async_cleanup_functions s4) s4
                 in Some (clear_lists s5))))"

subsection \<open>Timers firing\<close>

fun run_action :: "action \<Rightarrow> resource_tracker \<Rightarrow> resource_tracker \<times> error option" where
  "run_action (InvokeCancel k) s =
     (if k < next_interval s then invoke (IntervalCancel k) s else (s, None))"
| "run_action CallDispose s = (dispose s, None)"
| "run_action (CallSetTimeout f delay) s =
     (case set_timeout s (UserCallback f) delay of
        (s1, Inl e) \<Rightarrow> (s1, Some e)
      | (s1, Inr timer) \<Rightarrow> (s1, None))"
| "run_action (CallSetInterval f interval) s =
     (case set_interval s f interval of
        (s1, Inl e) \<Rightarrow> (s1, Some e)
      | (s1, Inr c) \<Rightarrow> (s1, None))"
| "run_action (RaiseError n) s = (s, Some (UserError n))"

fun run_actions :: "action list \<Rightarrow> resource_tracker \<Rightarrow> resource_tracker \<times> error option" where
  "run_actions [] s = (s, None)"
| "run_actions (a # as) s =
     (case run_action a s of
        (s1, None) \<Rightarrow> run_actions as s1
      | (s1, Some e) \<Rightarrow> (s1, Some e))"

fun call_user :: "user_fn \<Rightarrow> resource_tracker \<Rightarrow> resource_tracker \<times> error option" where
  "call_user (UserFn i script) s = run_actions script (record_event (CallbackRan i) s)"

text \<open>The closure \<open>interval_callback\<close> of \<open>set_interval\<close>.\<close>

definition interval_callback ::
  "nat \<Rightarrow> user_fn \<Rightarrow> int \<Rightarrow> resource_tracker \<Rightarrow> resource_tracker \<times> error option" where
  "interval_callback k cb interval s =
     (if \<not> interval_cancelled s k then
        (case call_user cb (record_event (IntervalFired k) s) of
           (s1, Some e) \<Rightarrow> (s1, Some e)
         | (s1, None) \<Rightarrow>
             (case set_timeout s1 (IntervalCallback k cb interval) interval of
                (s2, Inl e) \<Rightarrow> (s2, Some e)
              | (s2, Inr timer) \<Rightarrow> (s2, None)))
      else (s, None))"

fun run_callback :: "callback \<Rightarrow> resource_tracker \<Rightarrow> resource_tracker \<times> error option" where
  "run_callback (UserCallback f) s = call_user f s"
| "run_callback (IntervalCallback k cb interval) s = interval_callback k cb interval s"

text \<open>
  The event loop runs a timer that is due: a handle that was cancelled is dropped, any
  other one runs its callback once; an exception of the callback goes to the loop's
  exception handler.
\<close>

definition fire :: "nat \<Rightarrow> resource_tracker \<Rightarrow> resource_tracker" where
  "fire timer s =
     (case map_of (scheduled s) timer of
        None \<Rightarrow> s
      | Some cb \<Rightarrow>
          (let s1 = s\<lparr>scheduled := filter (\<lambda>entry. fst entry \<noteq> timer) (scheduled s)\<rparr>
           in if timer_cancelled s1 timer then s1
              else (case run_callback cb s1 of
                      (s2, None) \<Rightarrow> s2
                    | (s2, Some e) \<Rightarrow> record_event (LoopError e) s2)))"

text \<open>
  A run of the program around one tracker: the application creates intervals and
  timeouts, invokes the cancel function of an interval, disposes the tracker, and the
  event loop fires timers, in any order.
\<close>

datatype step =
    SetInterval user_fn int
  | SetTimeout user_fn int
  | Cancel nat
  | Dispose
  | Fire nat

fun do_step :: "step \<Rightarrow> resource_tracker \<Rightarrow> resource_tracker" where
  "do_step (SetInterval cb interval) s = fst (set_interval s cb interval)"
| "do_step (SetTimeout cb delay) s = fst (set_timeout s (UserCallback cb) delay)"
| "do_step (Cancel k) s = fst (run_action (InvokeCancel k) s)"
| "do_step Dispose s = dispose s"
| "do_step (Fire timer) s = fire timer s"

definition run :: "step list \<Rightarrow> resource_tracker \<Rightarrow> resource_tracker" where
  "run steps s = fold do_step steps s"



section \<open>Predicates used in the statements\<close>

text \<open>
  The shape of a language code in words: two alphabetic characters, or two alphabetic
  characters, a hyphen and two alphabetic characters.
\<close>

definition two_letters :: "(nat \<Rightarrow> bool) \<Rightarrow> pystr \<Rightarrow> bool" where
  "two_letters alpha p = (length p = 2 \<and> list_all alpha p)"

definition language_code_shape :: "(nat \<Rightarrow> bool) \<Rightarrow> pystr \<Rightarrow> bool" where
  "language_code_shape alpha s =
     (two_letters alpha s \<or>
      (length s = 5 \<and> two_letters alpha (take 2 s) \<and> s ! 2 = hyphen \<and>
       two_letters alpha (drop 3 s)))"



text \<open>
  What scheduling and awaiting one handler contributes to the executions of an
  \<open>emit\<close>.
\<close>

definition fires :: "'a func \<Rightarrow> 'a data \<Rightarrow> 'a trace" where
  "fires h d =
     (if iscoroutinefunction h then
        (case call h d of
           (Inr (RCoroutine i b x), tr) \<Rightarrow> [(i, x)]
         | _ \<Rightarrow> [])
      else snd (call h d))"

text \<open>Invariant I1: no entry of the handler map holds an empty list.\<close>

definition entries_nonempty :: "'a event_manager \<Rightarrow> bool" where
  "entries_nonempty m = (\<forall>k. handlers m k \<noteq> Some [])"


fun transcription_calls ::
  "(nat \<Rightarrow> bool) \<Rightarrow> 'a event_manager \<Rightarrow> (bool \<times> pystr \<times> 'a func) list \<Rightarrow> 'a event_manager" where
  "transcription_calls alpha m [] = m"
| "transcription_calls alpha m ((loop, language, handler) # calls) =
     transcription_calls alpha
       (fst (on_transcription_for_language alpha loop m language handler)) calls"


text \<open>The log entries that record a cleanup action being run by a disposal.\<close>

fun is_cleanup_run :: "event \<Rightarrow> bool" where
  "is_cleanup_run (CleanupRan c) = True"
| "is_cleanup_run (AsyncCleanupRan c) = True"
| "is_cleanup_run _ = False"




section \<open>Language codes and stream identifiers\<close>

lemma str_split_not_Nil: "str_split sep s \<noteq> []"
  by (induction s) (auto split: list.splits)

lemma str_split_single: "str_split sep s = [p] \<Longrightarrow> s = p \<and> sep \<notin> set p"
  by (induction s arbitrary: p) (auto split: list.splits if_splits simp: str_split_not_Nil)

lemma str_split_pair:
  "str_split sep s = [p, q] \<Longrightarrow> s = p @ sep # q \<and> sep \<notin> set p \<and> sep \<notin> set q"
  by (induction s arbitrary: p)
     (auto split: list.splits if_splits simp: str_split_not_Nil dest: str_split_single)

lemma str_split_no_sep: "sep \<notin> set s \<Longrightarrow> str_split sep s = [s]"
  by (induction s) (auto split: list.splits)

lemma str_split_at_sep:
  "sep \<notin> set p \<Longrightarrow> str_split sep (p @ sep # q) = p # str_split sep q"
  by (induction p) (auto split: list.splits simp: str_split_not_Nil)

lemma two_letters_no_sep: "\<not> alpha sep \<Longrightarrow> two_letters alpha p \<Longrightarrow> sep \<notin> set p"
  by (auto simp: two_letters_def list_all_iff)

lemma valid_imp_shape:
  assumes v: "is_valid_language_code alpha s"
  shows "language_code_shape alpha s"
proof -
  let ?ps = "str_split hyphen s"
  from v have ne: "s \<noteq> []" by (auto simp: is_valid_language_code_def)
  from v ne consider (one) "length ?ps = 1" | (two) "length ?ps = 2"
    by (auto simp: is_valid_language_code_def Let_def split: if_splits)
  then show ?thesis
  proof cases
    case one
    then obtain p where p: "?ps = [p]" by (cases ?ps) auto
    with v ne have "two_letters alpha p"
      by (auto simp: is_valid_language_code_def Let_def two_letters_def str_isalpha_def)
    moreover from p have "s = p" using str_split_single by blast
    ultimately show ?thesis by (simp add: language_code_shape_def)
  next
    case two
    then obtain p q where pq: "?ps = [p, q]"
      by (cases ?ps; cases "tl ?ps") auto
    with v ne have tl: "two_letters alpha p" "two_letters alpha q"
      by (auto simp: is_valid_language_code_def Let_def two_letters_def str_isalpha_def)
    from pq have s: "s = p @ hyphen # q" using str_split_pair by blast
    from tl have "length p = 2" "length q = 2" by (auto simp: two_letters_def)
    with s tl show ?thesis by (simp add: language_code_shape_def nth_append)
  qed
qed

lemma shape_imp_valid:
  assumes na: "\<not> alpha hyphen" and sh: "language_code_shape alpha s"
  shows "is_valid_language_code alpha s"
proof -
  from sh consider (short) "two_letters alpha s"
    | (long) "length s = 5" "two_letters alpha (take 2 s)" "s ! 2 = hyphen"
        "two_letters alpha (drop 3 s)"
    by (auto simp: language_code_shape_def)
  then show ?thesis
  proof cases
    case short
    then have "str_split hyphen s = [s]"
      using na two_letters_no_sep str_split_no_sep by blast
    with short show ?thesis
      by (auto simp: is_valid_language_code_def two_letters_def str_isalpha_def)
  next
    case long
    let ?p = "take 2 s" and ?q = "drop 3 s"
    have "s = take 2 s @ s ! 2 # drop (Suc 2) s"
      using long(1) by (intro id_take_nth_drop) simp
    with long(3) have s: "s = ?p @ hyphen # ?q"
      by (simp add: numeral_3_eq_3)
    have "str_split hyphen (?p @ hyphen # ?q) = ?p # str_split hyphen ?q"
      using na long(2) two_letters_no_sep str_split_at_sep by blast
    moreover have "str_split hyphen ?q = [?q]"
      using na long(4) two_letters_no_sep str_split_no_sep by blast
    ultimately have "str_split hyphen s = [?p, ?q]" using s by simp
    with long show ?thesis
      by (auto simp: is_valid_language_code_def two_letters_def str_isalpha_def)
  qed
qed

lemma valid_iff_shape:
  "\<not> alpha hyphen \<Longrightarrow> is_valid_language_code alpha s = language_code_shape alpha s"
  using valid_imp_shape shape_imp_valid by blast

text \<open>
  C9.  Given that the hyphen is not an alphabetic character, \<open>is_valid_language_code\<close>
  returns \<open>True\<close> exactly for two alphabetic characters, optionally followed by a
  hyphen and two alphabetic characters; \<open>create_transcription_stream\<close> and
  \<open>create_translation_stream\<close> raise \<open>ValueError\<close> exactly when a code does not have
  that shape, and otherwise return \<open>"transcription:" + language\<close> and
  \<open>"translation:" + source + ":" + target\<close>.
\<close>

theorem language_codes_and_streams:
  assumes "\<not> alpha hyphen"
  shows "is_valid_language_code alpha s = language_code_shape alpha s
    \<and> ((\<exists>e. create_transcription_stream alpha s = Inl (ValueError e))
          = (\<not> language_code_shape alpha s))
    \<and> (language_code_shape alpha s
          \<longrightarrow> create_transcription_stream alpha s = Inr (py ''transcription:'' @ s))
    \<and> ((\<exists>e. create_translation_stream alpha s t = Inl (ValueError e))
          = (\<not> (language_code_shape alpha s \<and> language_code_shape alpha t)))
    \<and> (language_code_shape alpha s \<and> language_code_shape alpha t
          \<longrightarrow> create_translation_stream alpha s t
                = Inr (py ''translation:'' @ s @ py '':'' @ t))"
  using assms
  by (simp add: valid_iff_shape create_transcription_stream_def create_translation_stream_def)

theorem language_codes_and_streams_witness:
  "\<not> ascii_alpha hyphen
   \<and> is_valid_language_code ascii_alpha (py ''en-US'')
   \<and> language_code_shape ascii_alpha (py ''en-US'')
   \<and> language_code_shape ascii_alpha (py ''es'')
   \<and> \<not> language_code_shape ascii_alpha (py ''xyz'')
   \<and> create_transcription_stream ascii_alpha (py ''en-US'') = Inr (py ''transcription:en-US'')
   \<and> create_translation_stream ascii_alpha (py ''en-US'') (py ''es'')
       = Inr (py ''translation:en-US:es'')
   \<and> (\<exists>e. create_transcription_stream ascii_alpha (py ''xyz'') = Inl (ValueError e))"
proof -
  have na: "\<not> ascii_alpha hyphen" by (simp add: ascii_alpha_def hyphen_def)
  have sh: "language_code_shape ascii_alpha (py ''en-US'')"
    "language_code_shape ascii_alpha (py ''es'')"
    "\<not> language_code_shape ascii_alpha (py ''xyz'')"
    by (simp_all add: language_code_shape_def two_letters_def ascii_alpha_def hyphen_def py_def)
  show ?thesis
    using na sh
      language_codes_and_streams [of ascii_alpha "py ''en-US''" "py ''es''"]
      language_codes_and_streams [of ascii_alpha "py ''xyz''" "py ''es''"]
    by (simp add: py_def)
qed

section \<open>The subscription registry\<close>

lemma handlers_add_handler:
  "handlers (fst (add_handler loop m T h)) = (handlers m)(T \<mapsto> registered m T @ [h])"
  by (auto simp: add_handler_def create_task_def getitem_def setitem_def registered_def Let_def
           split: option.splits)

lemma registered_add_handler:
  "registered (fst (add_handler loop m T h)) T'
     = (if T' = T then registered m T @ [h] else registered m T')"
  by (simp add: registered_def [of "fst (add_handler loop m T h)"] handlers_add_handler)
     (simp add: registered_def)

lemma last_cleanup_add_handler:
  "last_transcription_cleanup (fst (add_handler loop m T h)) = last_transcription_cleanup m"
  by (auto simp: add_handler_def create_task_def getitem_def setitem_def Let_def
           split: option.splits)

lemma snd_add_handler:
  "snd (add_handler loop m T h)
     = (if \<not> loop \<and> registered m T = []
        then Inl (RuntimeError (py ''no running event loop''))
        else Inr (Cleanup T h))"
  by (auto simp: add_handler_def create_task_def getitem_def setitem_def registered_def Let_def
           split: option.splits)

lemma snd_add_handler_loop: "snd (add_handler True m T h) = Inr (Cleanup T h)"
  by (simp add: snd_add_handler)

lemma registered_init: "registered init T = []"
  by (simp add: registered_def init_def)

lemma handlers_cleanup:
  "handlers (cleanup (Cleanup T h) m) =
     (case list_remove h (registered m T) of
        Inl e \<Rightarrow> (handlers m)(T \<mapsto> registered m T)
      | Inr hs \<Rightarrow> if hs = [] then (handlers m)(T := None) else (handlers m)(T \<mapsto> hs))"
  by (auto simp: getitem_def setitem_def delitem_def registered_def Let_def split: option.splits sum.splits)

lemma registered_cleanup:
  "registered (cleanup (Cleanup T h) m) T' =
     (if T' = T then (case list_remove h (registered m T) of Inl e \<Rightarrow> registered m T | Inr hs \<Rightarrow> hs)
      else registered m T')"
  by (auto simp: handlers_cleanup registered_def simp del: cleanup.simps split: option.splits sum.splits)

lemma ran_schedule:
  "concat (map snd (map await_one (fst (schedule hs d)))) = concat (map (\<lambda>h. fires h d) hs)"
proof (induction hs)
  case Nil
  then show ?case by simp
next
  case (Cons h hs)
  then show ?case
    by (cases h) (auto simp: fires_def run_body_def split: prod.splits sum.splits ret.splits)
qed

lemma schedule_Nil_fires:
  "fst (schedule hs d) = [] \<Longrightarrow> concat (map (\<lambda>h. fires h d) hs) = []"
  using ran_schedule [of hs d] by simp

lemma ran_emit: "ran (emit m T d) = concat (map (\<lambda>h. fires h d) (registered m T))"
proof (cases "handlers m T")
  case None
  then show ?thesis by (simp add: emit_def registered_def)
next
  case (Some hs)
  obtain tasks errors where sch: "schedule hs d = (tasks, errors)" by (cases "schedule hs d")
  then have tasks: "tasks = fst (schedule hs d)" by simp
  show ?thesis
  proof (cases "tasks = []")
    case True
    with sch Some tasks show ?thesis
      by (simp add: emit_def registered_def schedule_Nil_fires)
  next
    case False
    with sch Some show ?thesis
      using ran_schedule [of hs d]
      by (simp add: emit_def registered_def gather_def Let_def del: map_map)
  qed
qed

lemma raised_emit: "raised (emit m T d) = None"
  by (auto simp: emit_def gather_def Let_def split: option.splits prod.splits)

lemma fires_Def: "fires (Def i c b) d = [(i, d)]"
  by (simp add: fires_def run_body_def)







lemma logged_schedule: "snd (schedule hs d) = []"
proof (induction hs)
  case Nil
  then show ?case by simp
next
  case (Cons h hs)
  then show ?case by (cases h) (auto split: prod.splits)
qed

lemma logged_emit: "logged (emit m T d) = []"
proof (cases "handlers m T")
  case None
  then show ?thesis by (simp add: emit_def)
next
  case (Some hs)
  obtain tasks errors where sch: "schedule hs d = (tasks, errors)" by (cases "schedule hs d")
  with logged_schedule [of hs d] have "errors = []" by simp
  with sch Some show ?thesis
    by (simp add: emit_def gather_def Let_def)
qed

lemma entries_nonempty_add_handler:
  "entries_nonempty m \<Longrightarrow> entries_nonempty (fst (add_handler loop m T h))"
  by (simp add: entries_nonempty_def handlers_add_handler)

lemma entries_nonempty_cleanup:
  "entries_nonempty m \<Longrightarrow> handlers m T \<noteq> None \<Longrightarrow> entries_nonempty (cleanup (Cleanup T h) m)"
  by (auto simp: entries_nonempty_def handlers_cleanup registered_def
           simp del: cleanup.simps split: sum.splits)

text \<open>
  C1.  An entry of the handler map should exist exactly when its handler list is not
  empty, and a cleanup token invoked after its entry was deleted should not create an
  empty entry.  The code breaks this: registering one handler for
  \<open>"button_press"\<close> and invoking the returned token twice deletes the entry at the
  first invocation and leaves the entry \<open>"button_press" \<mapsto> []\<close> after the
  second.  (Registration keeps the invariant, and so does a token whose entry still
  exists: \<open>entries_nonempty_add_handler\<close>, \<open>entries_nonempty_cleanup\<close>.)
\<close>

theorem cleanup_after_delete_creates_empty_entry:
  "(let h = Def 1 False (\<lambda>d. None);
        (m1, r) = on True (init :: nat event_manager) (py ''button_press'') h;
        token = Cleanup (py ''button_press'') h;
        m2 = cleanup token m1;
        m3 = cleanup token m2
    in r = Inr token \<and> entries_nonempty m1 \<and> handlers m2 (py ''button_press'') = None
       \<and> handlers m3 (py ''button_press'') = Some [] \<and> \<not> entries_nonempty m3)"
  by (simp add: on_def add_handler_def create_task_def getitem_def setitem_def delitem_def
        init_def entries_nonempty_def Let_def)

text \<open>
  C2.  A second invocation of a cleanup token should leave the handler map as the
  first invocation left it.  The code breaks this: with one registration, the first
  invocation gives the empty map and the second a map with an empty entry; with the
  same handler registered twice for one event type, the first token invoked twice
  removes both registrations.
\<close>

theorem cleanup_second_invocation_changes_map:
  "(let h = Def 1 False (\<lambda>d. None);
        (m1, r) = on True (init :: nat event_manager) (py ''button_press'') h;
        token = Cleanup (py ''button_press'') h
    in r = Inr token
       \<and> handlers (cleanup token (cleanup token m1)) \<noteq> handlers (cleanup token m1))
   \<and> (let h = Def 1 False (\<lambda>d. None);
            (m1, r1) = on True (init :: nat event_manager) (py ''button_press'') h;
            (m2, r2) = on True m1 (py ''button_press'') h;
            token1 = Cleanup (py ''button_press'') h
        in r1 = Inr token1
           \<and> registered (cleanup token1 m2) (py ''button_press'') = [h]
           \<and> registered (cleanup token1 (cleanup token1 m2)) (py ''button_press'') = [])"
proof -
  let ?T = "py ''button_press''"
  let ?h = "Def 1 False (\<lambda>d. None) :: nat func"
  let ?m1 = "fst (on True (init :: nat event_manager) ?T ?h)"
  let ?m2 = "fst (on True ?m1 ?T ?h)"
  have one: "handlers (cleanup (Cleanup ?T ?h) ?m1) ?T = None"
    and two: "handlers (cleanup (Cleanup ?T ?h) (cleanup (Cleanup ?T ?h) ?m1)) ?T = Some []"
    by (simp_all add: on_def add_handler_def create_task_def getitem_def setitem_def delitem_def
          init_def Let_def)
  from one two
  have "handlers (cleanup (Cleanup ?T ?h) (cleanup (Cleanup ?T ?h) ?m1))
          \<noteq> handlers (cleanup (Cleanup ?T ?h) ?m1)"
    by (metis option.distinct(1))
  moreover have "registered (cleanup (Cleanup ?T ?h) ?m2) ?T = [?h]"
    and "registered (cleanup (Cleanup ?T ?h) (cleanup (Cleanup ?T ?h) ?m2)) ?T = []"
    by (simp_all add: on_def registered_cleanup registered_add_handler registered_init
          del: cleanup.simps)
  ultimately show ?thesis
    by (simp add: on_def split_beta snd_add_handler_loop del: cleanup.simps)
qed

section \<open>Dispatch\<close>




text \<open>
  C5.  \<open>emit\<close> never raises to its caller, and it runs every handler registered for
  the event type, in particular every application function, with the payload, whatever
  the other handlers of that event type do, raising included.
\<close>

theorem emit_isolates_failing_handlers:
  "raised (emit m T d) = None
   \<and> (\<forall>h \<in> set (registered m T). set (fires h d) \<subseteq> set (ran (emit m T d)))
   \<and> (\<forall>i c b. Def i c b \<in> set (registered m T) \<longrightarrow> (i, d) \<in> set (ran (emit m T d)))"
proof (intro conjI ballI allI impI)
  show "raised (emit m T d) = None" by (rule raised_emit)
next
  fix h assume "h \<in> set (registered m T)"
  then show "set (fires h d) \<subseteq> set (ran (emit m T d))"
    by (auto simp: ran_emit)
next
  fix i c b assume "Def i c b \<in> set (registered m T)"
  then have "set (fires (Def i c b) d) \<subseteq> set (ran (emit m T d))"
    by (auto simp: ran_emit)
  then show "(i, d) \<in> set (ran (emit m T d))" by (simp add: fires_Def)
qed

theorem emit_isolates_failing_handlers_witness:
  "(let T = py ''button_press'';
        d = Value (7 :: nat);
        m1 = fst (on True init T (Def 1 False (\<lambda>d. None)));
        m2 = fst (on True m1 T (Def 2 False (\<lambda>d. Some (UserError 0))));
        m3 = fst (on True m2 T (Def 3 True (\<lambda>d. None)))
    in registered m3 T = [Def 1 False (\<lambda>d. None), Def 2 False (\<lambda>d. Some (UserError 0)),
                          Def 3 True (\<lambda>d. None)]
       \<and> raised (emit m3 T d) = None
       \<and> (1, d) \<in> set (ran (emit m3 T d)) \<and> (3, d) \<in> set (ran (emit m3 T d)))"
proof -
  let ?T = "py ''button_press''"
  let ?d = "Value (7 :: nat)"
  let ?h1 = "Def 1 False (\<lambda>d. None) :: nat func"
  let ?h2 = "Def 2 False (\<lambda>d. Some (UserError 0)) :: nat func"
  let ?h3 = "Def 3 True (\<lambda>d. None) :: nat func"
  let ?m3 = "fst (on True (fst (on True (fst (on True init ?T ?h1)) ?T ?h2)) ?T ?h3)"
  have reg: "registered ?m3 ?T = [?h1, ?h2, ?h3]"
    by (simp add: on_def registered_add_handler registered_init)
  note all = emit_isolates_failing_handlers [of ?m3 ?T ?d]
  from all have "raised (emit ?m3 ?T ?d) = None" by blast
  moreover from all reg have "(1, ?d) \<in> set (ran (emit ?m3 ?T ?d))"
    by (simp add: fires_Def)
  moreover from all reg have "(3, ?d) \<in> set (ran (emit ?m3 ?T ?d))"
    by (simp add: fires_Def)
  ultimately show ?thesis using reg by (simp add: Let_def)
qed

subsection \<open>Custom messages\<close>

lemma registered_on_custom_message:
  "registered (fst (on_custom_message loop m a h)) (py ''custom_message'')
     = registered m (py ''custom_message'') @ [MessageHandler (closures m) a h]"
  using registered_add_handler [of loop "m\<lparr>closures := Suc (closures m)\<rparr>" "py ''custom_message''"]
  by (simp add: on_custom_message_def registered_def)

lemma fires_message_handler_sync:
  "fires (MessageHandler k a (Def i False b)) (CustomMessage a' p) = (if a' = a then [(i, p)] else [])"
  by (simp add: fires_def run_body_def)

lemma fires_message_handler_async:
  "fires (MessageHandler k a (Def i True b)) (CustomMessage a' p) = []"
  by (simp add: fires_def)

lemma custom_message_sync_delivery:
  "ran (emit (fst (on_custom_message loop m a (Def i False b))) (py ''custom_message'') (CustomMessage a' p))
     = ran (emit m (py ''custom_message'') (CustomMessage a' p)) @ (if a' = a then [(i, p)] else [])"
  by (simp add: ran_emit registered_on_custom_message fires_message_handler_sync)

lemma custom_message_async_delivery:
  "ran (emit (fst (on_custom_message loop m a (Def i True b))) (py ''custom_message'') (CustomMessage a' p))
     = ran (emit m (py ''custom_message'') (CustomMessage a' p))"
  by (simp add: ran_emit registered_on_custom_message fires_message_handler_async)

text \<open>
  C10.  A handler registered with \<open>on_custom_message(action, h)\<close> should run on
  exactly the messages whose action matches, with the message's payload.  The code
  breaks this for an \<open>async def\<close> handler: \<open>message_handler\<close> is not a coroutine
  function, so \<open>emit\<close> runs it in the executor, where it calls \<open>h\<close> and returns
  the coroutine object, which nothing awaits; the body of \<open>h\<close> never runs.  The same
  registration with a synchronous handler runs it with the message's payload
  (in general: \<open>custom_message_sync_delivery\<close>).
\<close>

theorem custom_message_async_handler_not_run:
  "(let (m1, r) = on_custom_message True (init :: nat event_manager) (py ''ping'')
                    (Def 1 True (\<lambda>d. None))
    in (\<exists>token. r = Inr token)
       \<and> ran (emit m1 (py ''custom_message'') (CustomMessage (py ''ping'') (Value 7))) = [])
   \<and> (let (m1, r) = on_custom_message True (init :: nat event_manager) (py ''ping'')
                        (Def 1 False (\<lambda>d. None))
        in (\<exists>token. r = Inr token)
           \<and> ran (emit m1 (py ''custom_message'') (CustomMessage (py ''ping'') (Value 7)))
                = [(1, Value 7)])"
proof -
  have "ran (emit (init :: nat event_manager) (py ''custom_message'')
               (CustomMessage (py ''ping'') (Value 7))) = []"
    by (simp add: ran_emit registered_init)
  moreover have "\<exists>token. snd (on_custom_message True (init :: nat event_manager) a h) = Inr token"
    for a h
    by (simp add: on_custom_message_def snd_add_handler_loop)
  ultimately show ?thesis
    by (simp add: split_beta custom_message_sync_delivery custom_message_async_delivery)
qed

section \<open>Single-slot transcription binding\<close>












text \<open>
  The example of the specification: binding \<open>es-ES\<close> and then \<open>en-US\<close> leaves the
  second handler as the only one.
\<close>

lemma rebinding_example:
  "(let m = transcription_calls ascii_alpha (init :: nat event_manager)
              [(True, py ''es-ES'', Def 1 False (\<lambda>d. None)),
               (True, py ''en-US'', Def 2 False (\<lambda>d. None))]
    in handlers m (py ''transcription:es-ES'') = None
       \<and> handlers m (py ''transcription:en-US'') = Some [Def 2 False (\<lambda>d. None)])"
  by (simp add: on_transcription_for_language_def create_transcription_stream_def
        is_valid_language_code_def hyphen_def str_isalpha_def ascii_alpha_def
        add_handler_def create_task_def getitem_def setitem_def delitem_def init_def Let_def
        py_def)

section \<open>The resource tracker: disposal\<close>

lemma cancel_timer_frame [simp]:
  "disposed (cancel_timer t s) = disposed s"
  "cleanup_functions (cancel_timer t s) = cleanup_functions s"
  "async_cleanup_functions (cancel_timer t s) = async_cleanup_functions s"
  "tasks (cancel_timer t s) = tasks s"
  "interval_cancelled (cancel_timer t s) = interval_cancelled s"
  "next_interval (cancel_timer t s) = next_interval s"
  "filter is_cleanup_run (log (cancel_timer t s)) = filter is_cleanup_run (log s)"
  by (simp_all add: cancel_timer_def record_event_def)

lemma cancel_task_frame [simp]:
  "disposed (cancel_task t s) = disposed s"
  "cleanup_functions (cancel_task t s) = cleanup_functions s"
  "async_cleanup_functions (cancel_task t s) = async_cleanup_functions s"
  "interval_cancelled (cancel_task t s) = interval_cancelled s"
  "next_interval (cancel_task t s) = next_interval s"
  "filter is_cleanup_run (log (cancel_task t s)) = filter is_cleanup_run (log s)"
  by (simp_all add: cancel_task_def record_event_def)

lemma fold_cancel_timer_frame [simp]:
  "disposed (fold cancel_timer ts s) = disposed s"
  "cleanup_functions (fold cancel_timer ts s) = cleanup_functions s"
  "async_cleanup_functions (fold cancel_timer ts s) = async_cleanup_functions s"
  "tasks (fold cancel_timer ts s) = tasks s"
  "interval_cancelled (fold cancel_timer ts s) = interval_cancelled s"
  "next_interval (fold cancel_timer ts s) = next_interval s"
  "filter is_cleanup_run (log (fold cancel_timer ts s)) = filter is_cleanup_run (log s)"
  by (induction ts arbitrary: s) simp_all

lemma fold_cancel_task_frame [simp]:
  "disposed (fold cancel_task ts s) = disposed s"
  "cleanup_functions (fold cancel_task ts s) = cleanup_functions s"
  "async_cleanup_functions (fold cancel_task ts s) = async_cleanup_functions s"
  "interval_cancelled (fold cancel_task ts s) = interval_cancelled s"
  "next_interval (fold cancel_task ts s) = next_interval s"
  "filter is_cleanup_run (log (fold cancel_task ts s)) = filter is_cleanup_run (log s)"
  by (induction ts arbitrary: s) simp_all

lemma invoke_frame [simp]:
  "disposed (fst (invoke c s)) = disposed s"
  "cleanup_functions (fst (invoke c s)) = cleanup_functions s"
  "async_cleanup_functions (fst (invoke c s)) = async_cleanup_functions s"
  "next_interval (fst (invoke c s)) = next_interval s"
  "filter is_cleanup_run (log (fst (invoke c s))) = filter is_cleanup_run (log s)"
  by (induct c) (simp_all add: record_event_def)

lemma record_event_frame [simp]:
  "disposed (record_event e s) = disposed s"
  "cleanup_functions (record_event e s) = cleanup_functions s"
  "async_cleanup_functions (record_event e s) = async_cleanup_functions s"
  "next_interval (record_event e s) = next_interval s"
  "interval_cancelled (record_event e s) = interval_cancelled s"
  "log (record_event e s) = log s @ [e]"
  by (simp_all add: record_event_def)



lemma try_cleanup_frame [simp]:
  "disposed (try_cleanup c s) = disposed s"
  "cleanup_functions (try_cleanup c s) = cleanup_functions s"
  "async_cleanup_functions (try_cleanup c s) = async_cleanup_functions s"
  "next_interval (try_cleanup c s) = next_interval s"
  "filter is_cleanup_run (log (try_cleanup c s)) = filter is_cleanup_run (log s) @ [CleanupRan c]"
  by (induct c) (simp_all add: try_cleanup_def record_event_def cancel_timer_def split: option.splits)

lemma run_cleanups_frame [simp]:
  "disposed (run_cleanups cs s) = disposed s"
  "cleanup_functions (run_cleanups cs s) = cleanup_functions s"
  "async_cleanup_functions (run_cleanups cs s) = async_cleanup_functions s"
  "next_interval (run_cleanups cs s) = next_interval s"
  "filter is_cleanup_run (log (run_cleanups cs s)) = filter is_cleanup_run (log s) @ map CleanupRan cs"
  unfolding run_cleanups_def by (induct cs arbitrary: s) simp_all

lemma try_async_cleanup_frame [simp]:
  "disposed (try_async_cleanup c s) = disposed s"
  "filter is_cleanup_run (log (try_async_cleanup c s)) = filter is_cleanup_run (log s) @ [AsyncCleanupRan c]"
  by (induct c) (simp_all split: option.splits)

lemma run_async_cleanups_frame [simp]:
  "disposed (run_async_cleanups cs s) = disposed s"
  "filter is_cleanup_run (log (run_async_cleanups cs s)) = filter is_cleanup_run (log s) @ map AsyncCleanupRan cs"
  unfolding run_async_cleanups_def by (induct cs arbitrary: s) simp_all

lemma clear_lists_frame [simp]:
  "disposed (clear_lists s) = disposed s"
  "log (clear_lists s) = log s"
  by (simp_all add: clear_lists_def)

lemma cancel_and_await_frame:
  "cancel_and_await ts s = Some s' \<Longrightarrow>
     disposed s' = disposed s \<and> cleanup_functions s' = cleanup_functions s
     \<and> async_cleanup_functions s' = async_cleanup_functions s
     \<and> filter is_cleanup_run (log s') = filter is_cleanup_run (log s)"
proof (induction ts arbitrary: s)
  case Nil
  then show ?case by simp
next
  case (Cons t ts)
  show ?case
  proof (cases "task_done s t")
    case True
    with Cons show ?thesis by simp
  next
    case False
    with Cons.prems show ?thesis
      by (cases "task_reaction s t")
         (auto simp: Let_def record_event_def dest!: Cons.IH)
  qed
qed

lemma disposed_dispose: "disposed (dispose s)"
  by (simp add: dispose_def Let_def)

lemma dispose_when_disposed: "disposed s \<Longrightarrow> dispose s = s"
  by (simp add: dispose_def)

lemma dispose_async_when_disposed: "disposed s \<Longrightarrow> dispose_async s = Some s"
  by (simp add: dispose_async_def)

lemma disposed_dispose_async: "dispose_async s = Some s' \<Longrightarrow> disposed s'"
  by (auto simp: dispose_async_def Let_def split: if_splits option.splits dest!: cancel_and_await_frame)

lemma runs_dispose:
  "\<not> disposed s \<Longrightarrow>
     filter is_cleanup_run (log (dispose s)) = filter is_cleanup_run (log s) @ map CleanupRan (cleanup_functions s)"
  by (simp add: dispose_def Let_def)

lemma runs_dispose_async:
  "\<not> disposed s \<Longrightarrow> dispose_async s = Some s' \<Longrightarrow>
     filter is_cleanup_run (log s') = filter is_cleanup_run (log s)
        @ map CleanupRan (cleanup_functions s) @ map AsyncCleanupRan (async_cleanup_functions s)"
  by (auto simp: dispose_async_def Let_def split: option.splits dest!: cancel_and_await_frame)

lemma track_when_disposed:
  "disposed s \<Longrightarrow> (\<exists>e. track s c = (s, Inl (RuntimeError e)))
     \<and> (\<exists>e. track_async s a = (s, Inl (RuntimeError e)))"
  by (simp add: track_def track_async_def)

text \<open>
  C3.  Every tracking call on a disposed tracker should fail and leave the collections
  unchanged, as \<open>track\<close> and \<open>track_async\<close> do (\<open>track_when_disposed\<close>).  The
  code breaks this for the other calls: on a disposed tracker \<open>track_task\<close> returns
  the task and has added it to \<open>_tasks\<close>; \<open>track_timer\<close> raises, but only after
  it has appended the timer to \<open>_timers\<close>; \<open>set_timeout\<close> and \<open>set_interval\<close>
  raise after they have scheduled a timer and appended it to \<open>_timers\<close>.
\<close>

theorem tracking_after_disposal_mutates:
  "(let s = dispose (new_tracker (\<lambda>t. Cancels));
        (s1, r1) = track_task s 4;
        (s2, r2) = track_timer s 4;
        (s3, r3) = set_timeout s (UserCallback (UserFn 1 [])) 5;
        (s4, r4) = set_interval s (UserFn 1 []) 5
    in disposed s \<and> tasks s = [] \<and> timers s = [] \<and> scheduled s = []
       \<and> r1 = Inr 4 \<and> tasks s1 = [4]
       \<and> r2 = Inl (RuntimeError (py ''ResourceTracker has been disposed'')) \<and> timers s2 = [4]
       \<and> r3 = Inl (RuntimeError (py ''ResourceTracker has been disposed'')) \<and> timers s3 = [0]
       \<and> scheduled s3 = [(0, UserCallback (UserFn 1 []))]
       \<and> r4 = Inl (RuntimeError (py ''ResourceTracker has been disposed'')) \<and> timers s4 = [0])"
  by (simp add: dispose_def new_tracker_def run_cleanups_def clear_lists_def track_task_def
        track_timer_def track_def set_timeout_def set_interval_def call_later_def Let_def)

text \<open>
  C7.  After a disposal call of either kind has returned, a further disposal call of
  either kind returns the state as it is: the flags of the timers and tasks and the log
  are unchanged, so nothing is cancelled and nothing is run.  Over the two calls, each
  tracked cleanup action is run once, by the first call (the asynchronous ones only by
  \<open>dispose_async\<close>).
\<close>

theorem disposal_runs_once:
  "dispose (dispose s) = dispose s
   \<and> dispose_async (dispose s) = Some (dispose s)
   \<and> (case dispose_async s of
         None \<Rightarrow> True
       | Some s' \<Rightarrow> dispose s' = s' \<and> dispose_async s' = Some s')
   \<and> (\<not> disposed s \<longrightarrow>
        filter is_cleanup_run (log (dispose (dispose s)))
          = filter is_cleanup_run (log s) @ map CleanupRan (cleanup_functions s))
   \<and> (\<not> disposed s \<longrightarrow>
        (case dispose_async s of
           None \<Rightarrow> True
         | Some s' \<Rightarrow>
             filter is_cleanup_run (log (dispose s'))
               = filter is_cleanup_run (log s) @ map CleanupRan (cleanup_functions s)
                   @ map AsyncCleanupRan (async_cleanup_functions s)))"
  using disposed_dispose [of s] disposed_dispose_async [of s] runs_dispose [of s]
    runs_dispose_async [of s]
  by (auto simp: dispose_when_disposed dispose_async_when_disposed split: option.splits)

theorem disposal_runs_once_witness:
  "(let s = fst (track_async
                   (fst (track (fst (set_timeout (new_tracker (\<lambda>t. Cancels))
                                       (UserCallback (UserFn 1 [])) 5))
                               (UserCleanup 2 (Some (UserError 0)))))
                   (AsyncCleanup 3 None))
    in \<not> disposed s
       \<and> dispose_async s \<noteq> None
       \<and> filter is_cleanup_run (log (dispose (dispose s)))
           = [CleanupRan (TimerCleanup 0), CleanupRan (UserCleanup 2 (Some (UserError 0)))]
       \<and> filter is_cleanup_run (log (dispose (the (dispose_async s))))
           = [CleanupRan (TimerCleanup 0), CleanupRan (UserCleanup 2 (Some (UserError 0))),
              AsyncCleanupRan (AsyncCleanup 3 None)])"
proof -
  let ?s = "fst (track_async
                   (fst (track (fst (set_timeout (new_tracker (\<lambda>t. Cancels))
                                       (UserCallback (UserFn 1 [])) 5))
                               (UserCleanup 2 (Some (UserError 0)))))
                   (AsyncCleanup 3 None))"
  have fields: "\<not> disposed ?s" "log ?s = []"
    "cleanup_functions ?s = [TimerCleanup 0, UserCleanup 2 (Some (UserError 0))]"
    "async_cleanup_functions ?s = [AsyncCleanup 3 None]" "tasks ?s = []"
    by (simp_all add: new_tracker_def set_timeout_def call_later_def track_timer_def track_def
          track_async_def Let_def)
  have ret: "dispose_async ?s \<noteq> None"
    using fields by (simp add: dispose_async_def Let_def)
  show ?thesis
    using fields ret disposal_runs_once [of ?s]
    by (auto simp: Let_def)
qed

section \<open>The resource tracker: intervals\<close>































text \<open>
  A run in which the callback cancels its own interval while it is firing: it runs
  once, and the timer that was scheduled after it finds the cell set.
\<close>

lemma self_cancelling_interval_example:
  "log (run [SetInterval (UserFn 7 [InvokeCancel 0]) 1, Fire 0, Fire 1, Fire 2]
            (new_tracker (\<lambda>t. Cancels)))
     = [IntervalFired 0, CallbackRan 7, CancelInvoked 0]"
  by (simp add: run_def new_tracker_def set_interval_def set_timeout_def call_later_def
        track_timer_def track_def fire_def interval_callback_def record_event_def Let_def)

end
